theory Spec2Isabelle
  imports Main
begin

section \<open>JavaScript strings\<close>

text \<open>
  A JavaScript string is a sequence of UTF-16 code units. A code unit is modelled by its
  numeric value, so that the CJK ranges of the source's regular expressions are plain
  comparisons. ASCII literals are written with \<open>ascii\<close>.
\<close>

type_synonym jstring = "nat list"

definition ascii :: "string \<Rightarrow> jstring" where
  "ascii s = map of_char s"

text \<open>White space and line terminators: what \<^verbatim>\<open>String.prototype.trim\<close> strips and what
  \<^verbatim>\<open>\s\<close> matches.\<close>

definition isWhiteSpace :: "nat \<Rightarrow> bool" where
  "isWhiteSpace c \<longleftrightarrow>
     c = 9 \<or> c = 10 \<or> c = 11 \<or> c = 12 \<or> c = 13 \<or> c = 32 \<or> c = 0xA0 \<or> c = 0x1680 \<or>
     (0x2000 \<le> c \<and> c \<le> 0x200A) \<or> c = 0x2028 \<or> c = 0x2029 \<or> c = 0x202F \<or>
     c = 0x205F \<or> c = 0x3000 \<or> c = 0xFEFF"

definition trim :: "jstring \<Rightarrow> jstring" where
  "trim s = rev (dropWhile isWhiteSpace (rev (dropWhile isWhiteSpace s)))"

definition startsWith :: "jstring \<Rightarrow> jstring \<Rightarrow> bool" where
  "startsWith s pat \<longleftrightarrow> take (length pat) s = pat"

text \<open>\<^verbatim>\<open>s.includes(pat)\<close>.\<close>

fun includesStr :: "jstring \<Rightarrow> jstring \<Rightarrow> bool" where
  "includesStr [] pat = (pat = [])"
| "includesStr (c # cs) pat = (startsWith (c # cs) pat \<or> includesStr cs pat)"

text \<open>The first occurrence of \<open>pat\<close> in a string: the text before it and the text after it.\<close>

fun findFirst :: "jstring \<Rightarrow> jstring \<Rightarrow> jstring \<Rightarrow> (jstring \<times> jstring) option" where
  "findFirst pat pre [] = (if pat = [] then Some (pre, []) else None)"
| "findFirst pat pre (c # cs) =
     (if startsWith (c # cs) pat then Some (pre, drop (length pat) (c # cs))
      else findFirst pat (pre @ [c]) cs)"

text \<open>
  The replacement text of \<^verbatim>\<open>String.prototype.replace\<close> with a string pattern: \<^verbatim>\<open>$$\<close> is a
  dollar sign, \<^verbatim>\<open>$&\<close> the matched text, \<^verbatim>\<open>$`\<close> the text before the match, \<^verbatim>\<open>$'\<close> the
  text after it; every other character, a dollar sign before anything else included (a
  string pattern has no capture groups), stands for itself.
\<close>

fun getSubstitution :: "jstring \<Rightarrow> jstring \<Rightarrow> jstring \<Rightarrow> jstring \<Rightarrow> jstring" where
  "getSubstitution matched pre post (c # d # ds) =
     (if c = 36 \<and> d = 36 then 36 # getSubstitution matched pre post ds
      else if c = 36 \<and> d = 38 then matched @ getSubstitution matched pre post ds
      else if c = 36 \<and> d = 96 then pre @ getSubstitution matched pre post ds
      else if c = 36 \<and> d = 39 then post @ getSubstitution matched pre post ds
      else c # getSubstitution matched pre post (d # ds))"
| "getSubstitution matched pre post cs = cs"

text \<open>\<^verbatim>\<open>s.replace(pat, rep)\<close> with a string pattern: only the first occurrence is replaced.\<close>

definition replace :: "jstring \<Rightarrow> jstring \<Rightarrow> jstring \<Rightarrow> jstring" where
  "replace s pat rep =
     (case findFirst pat [] s of
        None \<Rightarrow> s
      | Some (pre, post) \<Rightarrow> pre @ getSubstitution pat pre post rep @ post)"

text \<open>\<^verbatim>\<open>s.split('\n')\<close>: the pieces between line feeds, empty pieces included.\<close>

fun splitLines :: "jstring \<Rightarrow> jstring \<Rightarrow> jstring list" where
  "splitLines cur [] = [cur]"
| "splitLines cur (c # cs) =
     (if c = 10 then cur # splitLines [] cs else splitLines (cur @ [c]) cs)"

text \<open>\<^verbatim>\<open>s.split(/\s+/)\<close>: the pieces between maximal runs of white space; the flag records
  that the walk is inside such a run.\<close>

fun splitSpaces :: "bool \<Rightarrow> jstring \<Rightarrow> jstring \<Rightarrow> jstring list" where
  "splitSpaces inRun cur [] = [cur]"
| "splitSpaces inRun cur (c # cs) =
     (if isWhiteSpace c then
        (if inRun then splitSpaces True cur cs else cur # splitSpaces True [] cs)
      else splitSpaces False (cur @ [c]) cs)"

text \<open>\<^verbatim>\<open>arr.join(sep)\<close>; an \<^verbatim>\<open>undefined\<close> element joins as the empty string.\<close>

fun join :: "jstring \<Rightarrow> jstring option list \<Rightarrow> jstring" where
  "join sep [] = []"
| "join sep [x] = (case x of None \<Rightarrow> [] | Some s \<Rightarrow> s)"
| "join sep (x # y # ys) = (case x of None \<Rightarrow> [] | Some s \<Rightarrow> s) @ sep @ join sep (y # ys)"

text \<open>The decimal text of an integer, as \<^verbatim>\<open>String(n)\<close> gives it.\<close>

fun digits :: "nat \<Rightarrow> jstring" where
  "digits n = (if n < 10 then [48 + n] else digits (n div 10) @ [48 + n mod 10])"

definition numberToString :: "int \<Rightarrow> jstring" where
  "numberToString n = (if n < 0 then 45 # digits (nat (- n)) else digits (nat n))"

section \<open>Data\<close>

text \<open>
  A novel as \<^verbatim>\<open>uploadNovel\<close> builds it. The paragraph cache is absent (\<^verbatim>\<open>undefined\<close>) for a
  novel loaded from the persisted metadata, until \<^verbatim>\<open>reloadNovelContent\<close> fills it. The
  fields \<^verbatim>\<open>id\<close>, \<^verbatim>\<open>originalName\<close>, \<^verbatim>\<open>uploadDate\<close> and \<^verbatim>\<open>fileSize\<close> are read by no operation
  below.
\<close>

record novel =
  filename :: jstring
  title :: jstring
  totalParagraphs :: int
  currentParagraph :: int
  paragraphs :: "jstring list option"

text \<open>\<^verbatim>\<open>FileManager.novels\<close>: a \<^verbatim>\<open>Map\<close> from novel id to novel.\<close>

type_synonym fileManager = "jstring \<rightharpoonup> novel"

record chunk =
  content :: jstring
  startParagraph :: int
  endParagraph :: int
  paragraphCount :: nat
  wordCount :: int
  chapterLabel :: jstring

text \<open>
  The settings object. A field that may be missing is an option; of \<^verbatim>\<open>enabled\<close>,
  \<^verbatim>\<open>autopilotEnabled\<close> and \<^verbatim>\<open>collapseContent\<close> only the truth value is read.
\<close>

record settings =
  enabled :: bool
  savedActiveNovelId :: "jstring option"
  autopilotEnabled :: bool
  autopilotDelay :: "int option"
  prefixTemplate :: "jstring option"
  collapseContent :: bool
  targetWordCount :: "int option"

text \<open>
  The fields of \<^verbatim>\<open>InjectionEngine\<close>. \<open>originalSendMessage\<close> tells whether the host's send
  function has been captured (\<^verbatim>\<open>null\<close> before). \<open>autoPilotDelay\<close> is in milliseconds,
  \<open>autoPilotTimer\<close> is the handle \<^verbatim>\<open>setTimeout\<close> returned.
\<close>

record engine =
  isEnabled :: bool
  activeNovelId :: "jstring option"
  originalSendMessage :: bool
  isAutoPilotEnabled :: bool
  autoPilotDelay :: int
  autoPilotTimer :: "nat option"
  engineSettings :: settings

datatype error = NovelNotFound | ReadFileFailed | SendMissing

text \<open>
  What the code does to its surroundings: a text handed to the host's send function, a
  toast, an event. The toasts are named by their occasion: the novel has been read to the
  end, an injection failed, the engine was disabled or enabled, the engine has to be
  enabled first, autopilot was switched.
\<close>

datatype level = ToastSuccess | ToastInfo | ToastWarning | ToastError

datatype notice =
  NovelFinished | InjectionFailed error | EngineDisabled | EngineEnabled | EnableFirst |
  AutoPilotSwitched bool

datatype effect =
  Deliver jstring | Toast level notice | ChunkInjected "jstring option" chunk

text \<open>
  The whole state: the engine, the settings object the text processor was initialised
  with, the novels in memory, the persisted settings and novel metadata, the text files on
  the server (a missing file makes the fetch fail), the pending timers of the platform
  with their due times, the clock, and the effects so far.
\<close>

record world =
  eng :: engine
  textProcessorSettings :: settings
  novels :: fileManager
  storedSettings :: "settings option"
  storedNovels :: fileManager
  serverFiles :: "jstring \<rightharpoonup> jstring"
  timers :: "(nat \<times> int) list"
  timerCounter :: nat
  now :: int
  effects :: "effect list"

text \<open>The outcome of an operation that may throw: the exception or the value, and the
  state it leaves.\<close>

type_synonym 'a outcome = "(error + 'a) \<times> world"

section \<open>The novel store (core/fileManager.js)\<close>

definition getNovel :: "fileManager \<Rightarrow> jstring \<Rightarrow> novel option" where
  "getNovel ns novelId = ns novelId"

text \<open>\<^verbatim>\<open>saveNovelsData\<close>: the metadata of every novel, without the paragraph cache.\<close>

definition saveNovelsData :: "world \<Rightarrow> world" where
  "saveNovelsData w =
     w\<lparr>storedNovels := (\<lambda>k. map_option (\<lambda>n. n\<lparr>paragraphs := None\<rparr>) (novels w k))\<rparr>"

text \<open>
  \<^verbatim>\<open>novel.currentParagraph = Math.max(0, Math.min(paragraphIndex, novel.totalParagraphs - 1))\<close>
\<close>

definition updateProgress :: "world \<Rightarrow> jstring \<Rightarrow> int \<Rightarrow> unit outcome" where
  "updateProgress w novelId paragraphIndex =
     (case novels w novelId of
        None \<Rightarrow> (Inl NovelNotFound, w)
      | Some novel \<Rightarrow>
          (Inr (), saveNovelsData (w\<lparr>novels := (novels w)(novelId \<mapsto>
             novel\<lparr>currentParagraph :=
               max 0 (min paragraphIndex (totalParagraphs novel - 1))\<rparr>)\<rparr>)))"

definition resetProgress :: "world \<Rightarrow> jstring \<Rightarrow> unit outcome" where
  "resetProgress w novelId = updateProgress w novelId 0"

text \<open>\<^verbatim>\<open>content.replace(/\r\n/g, '\n').replace(/\r/g, '\n')\<close>\<close>

fun crlfToLf :: "jstring \<Rightarrow> jstring" where
  "crlfToLf (c # d # cs) = (if c = 13 \<and> d = 10 then 10 # crlfToLf cs else c # crlfToLf (d # cs))"
| "crlfToLf cs = cs"

definition normalizeNewlines :: "jstring \<Rightarrow> jstring" where
  "normalizeNewlines s = map (\<lambda>c. if c = 13 then 10 else c) (crlfToLf s)"

text \<open>
  \<^verbatim>\<open>s.split(/\n\s*\n/)\<close>. A match starts at a line feed and runs, through white space only,
  to the last line feed of that white space; the next piece starts after it.
\<close>

function splitBlankLines :: "jstring \<Rightarrow> jstring \<Rightarrow> jstring list" where
  "splitBlankLines cur [] = [cur]"
| "splitBlankLines cur (c # cs) =
     (let run = takeWhile isWhiteSpace cs in
        if c = 10 \<and> 10 \<in> set run
        then cur # splitBlankLines []
               (drop (length (dropWhile (\<lambda>x. x \<noteq> 10) (rev run))) cs)
        else splitBlankLines (cur @ [c]) cs)"
  by pat_completeness auto
termination
  by (relation "measure (\<lambda>(cur, s). length s)") auto

definition parseParagraphs :: "jstring \<Rightarrow> jstring list" where
  "parseParagraphs text =
     (if text = [] then []
      else filter (\<lambda>p. length p > 0)
             (map trim (splitBlankLines [] (normalizeNewlines text))))"

text \<open>\<^verbatim>\<open>reloadNovelContent\<close>: fills the paragraph cache of a novel that has none.\<close>

definition reloadNovelContent :: "world \<Rightarrow> jstring \<Rightarrow> unit outcome" where
  "reloadNovelContent w novelId =
     (case novels w novelId of
        None \<Rightarrow> (Inl NovelNotFound, w)
      | Some novel \<Rightarrow>
          (case paragraphs novel of
             Some ps \<Rightarrow> (Inr (), w)
           | None \<Rightarrow>
              (case serverFiles w (filename novel) of
                 None \<Rightarrow> (Inl ReadFileFailed, w)
               | Some text \<Rightarrow>
                   (Inr (), w\<lparr>novels := (novels w)(novelId \<mapsto>
                      novel\<lparr>paragraphs := Some (parseParagraphs text)\<rparr>)\<rparr>))))"

section \<open>The chunker (core/textProcessor.js)\<close>

definition isCJK :: "nat \<Rightarrow> bool" where
  "isCJK c \<longleftrightarrow> (0x4E00 \<le> c \<and> c \<le> 0x9FFF) \<or> (0x3000 \<le> c \<and> c \<le> 0x303F) \<or>
                (0xFF01 \<le> c \<and> c \<le> 0xFF5E)"

text \<open>\<^verbatim>\<open>countWords\<close>: the CJK characters, one each, plus the white-space separated words of
  the text with the CJK characters blanked out.\<close>

definition countWords :: "jstring \<Rightarrow> int" where
  "countWords text =
     (if text = [] then 0
      else let cleanText = trim text in
        if cleanText = [] then 0
        else
          let chineseChars = length (filter isCJK cleanText);
              englishWords = length (filter (\<lambda>word. length (trim word) > 0)
                (splitSpaces False [] (map (\<lambda>c. if isCJK c then 32 else c) cleanText)))
          in int chineseChars + int englishWords)"

text \<open>The endings of \<^verbatim>\<open>isGoodBreakPoint\<close>: the full stop, exclamation and question marks of
  both scripts, the double and single quote, both closing parentheses and the ellipsis. The
  source writes the fifth entry of the first list as three single quote characters; it is
  read as the single quote, which the second list has as well.\<close>

definition chineseEndings :: "nat list" where
  "chineseEndings = [0x3002, 0xFF01, 0xFF1F, 34, 39, 41, 0xFF09, 0x2026]"

definition englishEndings :: "nat list" where
  "englishEndings = [46, 33, 63, 34, 39, 41]"

definition isGoodBreakPoint :: "jstring \<Rightarrow> bool" where
  "isGoodBreakPoint paragraph =
     (if paragraph = [] then False
      else let t = trim paragraph in
        t \<noteq> [] \<and> (last t \<in> set chineseEndings \<or> last t \<in> set englishEndings))"

text \<open>\<^verbatim>\<open>paragraphs[i]\<close>: \<^verbatim>\<open>undefined\<close> outside the array. Both helper functions return
  their no-text answer on \<^verbatim>\<open>undefined\<close>.\<close>

definition paragraphAt :: "jstring list \<Rightarrow> int \<Rightarrow> jstring option" where
  "paragraphAt ps i = (if 0 \<le> i \<and> i < int (length ps) then Some (ps ! nat i) else None)"

definition countWordsU :: "jstring option \<Rightarrow> int" where
  "countWordsU p = (case p of None \<Rightarrow> 0 | Some text \<Rightarrow> countWords text)"

definition isGoodBreakPointU :: "jstring option \<Rightarrow> bool" where
  "isGoodBreakPointU p = (case p of None \<Rightarrow> False | Some text \<Rightarrow> isGoodBreakPoint text)"

text \<open>
  The \<^verbatim>\<open>for\<close> loop of \<^verbatim>\<open>getNextChunk\<close>. The state is the loop's three variables
  \<^verbatim>\<open>collectedParagraphs\<close>, \<^verbatim>\<open>totalWordCount\<close> and \<^verbatim>\<open>endParagraph\<close> (here \<open>endP\<close>, and
  \<open>target\<close> for \<^verbatim>\<open>targetWordCount\<close>); a \<^verbatim>\<open>break\<close> returns
  it, a \<^verbatim>\<open>continue\<close> and the end of the body go to \<open>i + 1\<close>.
\<close>

function collect ::
  "jstring list \<Rightarrow> int \<Rightarrow> int \<Rightarrow> jstring option list \<times> int \<times> int
     \<Rightarrow> jstring option list \<times> int \<times> int" where
  "collect ps target i (collectedParagraphs, totalWordCount, endP) =
     (if i < int (length ps) then
        let paragraph = paragraphAt ps i;
            paragraphWordCount = countWordsU paragraph
        in
          if totalWordCount > 0 \<and> totalWordCount + paragraphWordCount > target
          then (collectedParagraphs, totalWordCount, endP)
          else
            let collected' = collectedParagraphs @ [paragraph];
                total' = totalWordCount + paragraphWordCount;
                end' = i + 1
            in
              if total' \<ge> target then
                if isGoodBreakPointU paragraph then (collected', total', end')
                else if i + 1 < int (length ps) \<and> countWordsU (paragraphAt ps (i + 1)) < 100
                then collect ps target (i + 1) (collected', total', end')
                else (collected', total', end')
              else collect ps target (i + 1) (collected', total', end')
      else (collectedParagraphs, totalWordCount, endP))"
  by pat_completeness auto
termination
  by (relation "measure (\<lambda>(ps, t, i, s). nat (int (length ps) - i))") auto


text \<open>
  The heading patterns of \<^verbatim>\<open>extractChapter\<close>, tested against a trimmed line. Every pattern
  is anchored at the start and ends in \<^verbatim>\<open>.*\<close>, so it tests a prefix of the line.
\<close>

definition isDigit :: "nat \<Rightarrow> bool" where
  "isDigit c \<longleftrightarrow> 48 \<le> c \<and> c \<le> 57"

text \<open>The class of Chinese numerals and digits between the brackets of the first three
  patterns.\<close>

definition isChapterNumeral :: "nat \<Rightarrow> bool" where
  "isChapterNumeral c \<longleftrightarrow>
     c \<in> set [0x4E00, 0x4E8C, 0x4E09, 0x56DB, 0x4E94, 0x516D, 0x4E03, 0x516B, 0x4E5D, 0x5341,
              0x767E, 0x5343, 0x4E07] \<or> isDigit c"

text \<open>One or more numerals followed by one of the given characters (none of them a
  numeral, so the greedy run is the only candidate).\<close>

definition numeralsThen :: "nat list \<Rightarrow> jstring \<Rightarrow> bool" where
  "numeralsThen closing s \<longleftrightarrow>
     takeWhile isChapterNumeral s \<noteq> [] \<and>
     (case dropWhile isChapterNumeral s of [] \<Rightarrow> False | c # cs \<Rightarrow> c \<in> set closing)"

text \<open>Case folding of the \<^verbatim>\<open>i\<close> flag: only the ASCII letters fold onto ASCII letters.\<close>

definition toLowerAscii :: "nat \<Rightarrow> nat" where
  "toLowerAscii c = (if 65 \<le> c \<and> c \<le> 90 then c + 32 else c)"

definition startsWithIgnoreCase :: "jstring \<Rightarrow> jstring \<Rightarrow> bool" where
  "startsWithIgnoreCase s pat \<longleftrightarrow>
     map toLowerAscii (take (length pat) s) = map toLowerAscii pat"

definition chapterPatterns :: "(jstring \<Rightarrow> bool) list" where
  "chapterPatterns =
     [\<lambda>l. (case l of [] \<Rightarrow> False | c # cs \<Rightarrow> c = 0x7B2C \<and> numeralsThen [0x7AE0] cs),
      \<lambda>l. (case l of [] \<Rightarrow> False | c # cs \<Rightarrow> c = 0x7B2C \<and> numeralsThen [0x8282] cs),
      \<lambda>l. numeralsThen [0x3001, 46] (case l of [] \<Rightarrow> [] | c # cs \<Rightarrow> if c = 0x7B2C then cs else l),
      \<lambda>l. startsWithIgnoreCase l (ascii ''Chapter'') \<and>
          (let r = drop 7 l in
             takeWhile isWhiteSpace r \<noteq> [] \<and>
             (case dropWhile isWhiteSpace r of [] \<Rightarrow> False | c # cs \<Rightarrow> isDigit c)),
      \<lambda>l. startsWithIgnoreCase l (ascii ''Ch.'') \<and>
          (case dropWhile isWhiteSpace (drop 3 l) of [] \<Rightarrow> False | c # cs \<Rightarrow> isDigit c)]"

text \<open>The label made from the paragraph index: one chapter for every 50 paragraphs.\<close>

definition fallbackChapter :: "int \<Rightarrow> jstring" where
  "fallbackChapter paragraphIndex =
     [0x7B2C] @ numberToString (paragraphIndex div 50 + 1) @ [0x7AE0]"

fun firstChapterLine :: "jstring list \<Rightarrow> jstring option" where
  "firstChapterLine [] = None"
| "firstChapterLine (line # rest) =
     (let trimmedLine = trim line in
        if list_ex (\<lambda>pattern. pattern trimmedLine) chapterPatterns
        then Some (if length trimmedLine > 50 then take 50 trimmedLine @ ascii ''...''
                   else trimmedLine)
        else firstChapterLine rest)"

definition extractChapter :: "jstring \<Rightarrow> int \<Rightarrow> jstring" where
  "extractChapter body paragraphIndex =
     (if body = [] then fallbackChapter paragraphIndex
      else case firstChapterLine (splitLines [] body) of
             Some label \<Rightarrow> label
           | None \<Rightarrow> fallbackChapter paragraphIndex)"

text \<open>
  \<^verbatim>\<open>TextProcessor.settings.targetWordCount\<close> may be missing; a missing or zero value gives
  \<^verbatim>\<open>defaultTargetWordCount\<close>.
\<close>

definition defaultTargetWordCount :: int where
  "defaultTargetWordCount = 500"

definition targetWordCountOf :: "int option \<Rightarrow> int" where
  "targetWordCountOf setting =
     (case setting of None \<Rightarrow> defaultTargetWordCount
      | Some n \<Rightarrow> if n = 0 then defaultTargetWordCount else n)"

text \<open>\<^verbatim>\<open>TextProcessor.getNextChunk(novelId, currentParagraph)\<close>; \<open>None\<close> is \<^verbatim>\<open>null\<close>.\<close>

definition TextProcessor_getNextChunk ::
  "int option \<Rightarrow> fileManager \<Rightarrow> jstring \<Rightarrow> int \<Rightarrow> chunk option" where
  "TextProcessor_getNextChunk setting ns novelId current =
     (case getNovel ns novelId of
        None \<Rightarrow> None
      | Some novel \<Rightarrow>
         (case paragraphs novel of
            None \<Rightarrow> None
          | Some ps \<Rightarrow>
              if current \<ge> int (length ps) then None
              else
                (case collect ps (targetWordCountOf setting) current ([], 0, current) of
                   (collectedParagraphs, totalWordCount, endP) \<Rightarrow>
                     if length collectedParagraphs = 0 then None
                     else
                       let text = join [10, 10] collectedParagraphs in
                         Some \<lparr>content = text,
                               startParagraph = current,
                               endParagraph = endP,
                               paragraphCount = length collectedParagraphs,
                               wordCount = totalWordCount,
                               chapterLabel = extractChapter text current\<rparr>)))"

section \<open>The injection engine (core/injectionEngine.js)\<close>

text \<open>Truthiness of an optional string and of a timer handle.\<close>

definition truthyId :: "jstring option \<Rightarrow> bool" where
  "truthyId v = (case v of None \<Rightarrow> False | Some s \<Rightarrow> s \<noteq> [])"

definition truthyTimer :: "nat option \<Rightarrow> bool" where
  "truthyTimer v = (case v of None \<Rightarrow> False | Some h \<Rightarrow> h \<noteq> 0)"

definition toast :: "level \<Rightarrow> notice \<Rightarrow> world \<Rightarrow> world" where
  "toast l n w = w\<lparr>effects := effects w @ [Toast l n]\<rparr>"

text \<open>\<^verbatim>\<open>this.originalSendMessage.call(this, text)\<close>: a \<^verbatim>\<open>TypeError\<close> while nothing has been
  captured. The host's function itself is taken not to throw.\<close>

definition callOriginalSendMessage :: "world \<Rightarrow> jstring \<Rightarrow> unit outcome" where
  "callOriginalSendMessage w text =
     (if originalSendMessage (eng w) then (Inr (), w\<lparr>effects := effects w @ [Deliver text]\<rparr>)
      else (Inl SendMissing, w))"

text \<open>\<^verbatim>\<open>saveSettings\<close>; the delay is stored in seconds (\<open>autoPilotDelay\<close> is a whole number of
  seconds times 1000 whenever \<^verbatim>\<open>setAutoPilot\<close> is given whole seconds).\<close>

definition saveSettings :: "world \<Rightarrow> world" where
  "saveSettings w =
     (let e = eng w;
          s = (engineSettings e)\<lparr>enabled := isEnabled e,
                 savedActiveNovelId := activeNovelId e,
                 autopilotEnabled := isAutoPilotEnabled e,
                 autopilotDelay := Some (autoPilotDelay e div 1000)\<rparr>
      in w\<lparr>eng := e\<lparr>engineSettings := s\<rparr>, storedSettings := Some s\<rparr>)"

text \<open>The two markers \<^verbatim>\<open>isNovelContent\<close> looks for, and the one \<^verbatim>\<open>formatChunkContent\<close>
  appends.\<close>

definition markerChinese :: jstring where
  "markerChinese = ascii ''['' @ [0x5C0F, 0x8BF4, 0x6CE8, 0x5165, 0x5668] @ ascii '']''"

definition markerEnglish :: jstring where
  "markerEnglish = ascii ''[Novel Injector]''"

definition appendedMarker :: jstring where
  "appendedMarker =
     [10, 10] @ ascii ''['' @ [0x5C0F, 0x8BF4, 0x6CE8, 0x5165, 0x5668] @ ascii '' - '' @
     [0x81EA, 0x52A8, 0x6CE8, 0x5165] @ ascii '']''"

definition isNovelContent :: "jstring \<Rightarrow> bool" where
  "isNovelContent text \<longleftrightarrow> includesStr text markerChinese \<or> includesStr text markerEnglish"

definition shouldInterceptMessage :: "world \<Rightarrow> jstring \<Rightarrow> bool" where
  "shouldInterceptMessage w text =
     (if \<not> isEnabled (eng w) then False
      else if \<not> truthyId (activeNovelId (eng w)) then False
      else if isNovelContent text then False
      else True)"

text \<open>\<^verbatim>\<open>clearTimeout\<close> and \<^verbatim>\<open>setTimeout\<close> of the platform: a handle is a positive number
  never given before.\<close>

definition clearTimeout :: "nat \<Rightarrow> world \<Rightarrow> world" where
  "clearTimeout h w = w\<lparr>timers := filter (\<lambda>(k, due). k \<noteq> h) (timers w)\<rparr>"

definition setTimeout :: "int \<Rightarrow> world \<Rightarrow> nat \<times> world" where
  "setTimeout delay w =
     (let h = Suc (timerCounter w)
      in (h, w\<lparr>timers := timers w @ [(h, now w + delay)], timerCounter := h\<rparr>))"

definition disable :: "world \<Rightarrow> world" where
  "disable w =
     (let w1 = w\<lparr>eng := (eng w)\<lparr>isEnabled := False, activeNovelId := None\<rparr>\<rparr>;
          w2 = (if truthyTimer (autoPilotTimer (eng w1))
                then (let w' = clearTimeout (the (autoPilotTimer (eng w1))) w1
                      in w'\<lparr>eng := (eng w')\<lparr>autoPilotTimer := None\<rparr>\<rparr>)
                else w1)
      in toast ToastInfo EngineDisabled (saveSettings w2))"

definition enable :: "world \<Rightarrow> jstring \<Rightarrow> world" where
  "enable w novelId =
     toast ToastSuccess EngineEnabled
       (saveSettings (w\<lparr>eng := (eng w)\<lparr>isEnabled := True, activeNovelId := Some novelId\<rparr>\<rparr>))"

definition setAutoPilot :: "world \<Rightarrow> bool \<Rightarrow> int \<Rightarrow> world" where
  "setAutoPilot w on delay =
     toast ToastInfo (AutoPilotSwitched on)
       (saveSettings
         (w\<lparr>eng := (eng w)\<lparr>isAutoPilotEnabled := on, autoPilotDelay := delay * 1000\<rparr>\<rparr>))"

text \<open>\<^verbatim>\<open>InjectionEngine.getNextChunk\<close>\<close>

definition InjectionEngine_getNextChunk :: "world \<Rightarrow> chunk option outcome" where
  "InjectionEngine_getNextChunk w =
     (if \<not> truthyId (activeNovelId (eng w)) then (Inr None, w)
      else
        let novelId = the (activeNovelId (eng w)) in
        (case getNovel (novels w) novelId of
           None \<Rightarrow> (Inr None, w)
         | Some novel \<Rightarrow>
             if currentParagraph novel \<ge> totalParagraphs novel then (Inr None, w)
             else
               (case reloadNovelContent w novelId of
                  (Inl e, w1) \<Rightarrow> (Inl e, w1)
                | (Inr u, w1) \<Rightarrow>
                    (case TextProcessor_getNextChunk
                            (targetWordCount (textProcessorSettings w1)) (novels w1) novelId
                            (currentParagraph novel) of
                       None \<Rightarrow> (Inr None, w1)
                     | Some c \<Rightarrow>
                         (case updateProgress w1 novelId (endParagraph c) of
                            (Inl e, w2) \<Rightarrow> (Inl e, w2)
                          | (Inr u', w2) \<Rightarrow> (Inr (Some c), w2))))))"

text \<open>\<^verbatim>\<open>createCollapsibleContent\<close>; the element id is made from \<^verbatim>\<open>Date.now()\<close>.\<close>

definition createCollapsibleContent :: "int \<Rightarrow> jstring \<Rightarrow> jstring \<Rightarrow> jstring" where
  "createCollapsibleContent dateNow novelContent originalText =
     (let contentId = ascii ''novel_content_'' @ numberToString dateNow;
          shortPreview = take 100 novelContent @
            (if length novelContent > 100 then ascii ''...'' else [])
      in
        [10] @ ascii ''<div class='' @ [34] @ ascii ''novel-injector-collapsible'' @ [34] @
        ascii ''>'' @ [10] @ ascii ''    <div class='' @ [34] @ ascii ''novel-injector-header'' @
        [34] @ ascii '' onclick='' @ [34] @ ascii ''toggleNovelContent('' @ [39] @
        contentId @
        [39] @ ascii '')'' @ [34] @ ascii ''>'' @ [10] @ ascii ''        <strong>'' @
        [0xD83D, 0xDCD6] @ ascii '' '' @ [0x5C0F, 0x8BF4, 0x5185, 0x5BB9] @ ascii '' ('' @
        [0x70B9, 0x51FB, 0x5C55, 0x5F00] @ ascii ''/'' @ [0x6298, 0x53E0] @
        ascii '')</strong>'' @ [10] @ ascii ''        <span class='' @ [34] @
        ascii ''novel-injector-preview'' @ [34] @ ascii ''>'' @
        shortPreview @
        ascii ''</span>'' @ [10] @ ascii ''    </div>'' @ [10] @ ascii ''    <div id='' @ [34] @
        contentId @
        [34] @ ascii '' class='' @ [34] @ ascii ''novel-injector-content'' @ [34] @
        ascii '' style='' @ [34] @ ascii ''display: none;'' @ [34] @ ascii ''>'' @ [10] @
        ascii ''        <div class='' @ [34] @ ascii ''novel-injector-text'' @ [34] @ ascii ''>'' @
        novelContent @
        ascii ''</div>'' @ [10] @ ascii ''    </div>'' @ [10] @ ascii ''</div>'' @ [10] @
        (if originalText \<noteq> []
         then [10, 0x7528, 0x6237, 0x539F, 0x59CB, 0x8F93, 0x5165] @ ascii '': '' @ originalText
         else []) @
        [10] @ ascii ''        '')"

text \<open>
  \<^verbatim>\<open>formatChunkContent\<close>. The novel is the active one, if the store has it; a missing or
  empty title, chapter or total count gives the fallback of the source.
\<close>

definition formatChunkContent :: "world \<Rightarrow> chunk \<Rightarrow> jstring \<Rightarrow> jstring" where
  "formatChunkContent w c originalText =
     (let novel = (case activeNovelId (eng w) of
                     None \<Rightarrow> None | Some novelId \<Rightarrow> getNovel (novels w) novelId);
          s = engineSettings (eng w);
          novelTitle = (case novel of
                          None \<Rightarrow> [0x672A, 0x77E5, 0x5C0F, 0x8BF4]
                        | Some n \<Rightarrow> if title n = [] then [0x672A, 0x77E5, 0x5C0F, 0x8BF4]
                                    else title n);
          total = (case novel of None \<Rightarrow> 0 | Some n \<Rightarrow> totalParagraphs n);
          prefixPart =
            (case prefixTemplate s of
               None \<Rightarrow> []
             | Some template \<Rightarrow>
                 if template = [] then []
                 else
                   replace (replace (replace (replace (replace template
                     (ascii ''{title}'') novelTitle)
                     (ascii ''{chapter}'') (if chapterLabel c = [] then ascii ''1''
                                            else chapterLabel c))
                     (ascii ''{start_para}'') (numberToString (startParagraph c + 1)))
                     (ascii ''{end_para}'') (numberToString (endParagraph c)))
                     (ascii ''{progress}'')
                       (numberToString (endParagraph c) @ ascii ''/'' @ numberToString total)
                   @ [10, 10]);
          contentPart =
            (if collapseContent s then createCollapsibleContent (now w) (content c) originalText
             else content c)
      in prefixPart @ contentPart @ appendedMarker)"

definition sendNovelChunk :: "world \<Rightarrow> chunk \<Rightarrow> jstring \<Rightarrow> unit outcome" where
  "sendNovelChunk w c originalText =
     callOriginalSendMessage w (formatChunkContent w c originalText)"

text \<open>
  \<^verbatim>\<open>handleInterception\<close>: the \<^verbatim>\<open>try\<close> block first, then the \<^verbatim>\<open>catch\<close> clause on what it
  threw.
\<close>

definition handleInterception :: "world \<Rightarrow> jstring \<Rightarrow> unit outcome" where
  "handleInterception w originalText =
     (let tried =
        (case InjectionEngine_getNextChunk w of
           (Inl e, w1) \<Rightarrow> (Inl e, w1)
         | (Inr None, w1) \<Rightarrow>
             callOriginalSendMessage (disable (toast ToastWarning NovelFinished w1)) originalText
         | (Inr (Some c), w1) \<Rightarrow>
             (case sendNovelChunk w1 c originalText of
                (Inl e, w2) \<Rightarrow> (Inl e, w2)
              | (Inr u, w2) \<Rightarrow>
                  (Inr (), w2\<lparr>effects := effects w2 @
                                 [ChunkInjected (activeNovelId (eng w2)) c]\<rparr>)))
      in case tried of
           (Inl e, w') \<Rightarrow>
             callOriginalSendMessage (toast ToastError (InjectionFailed e) w') originalText
         | (Inr u, w') \<Rightarrow> (Inr (), w'))"

text \<open>The replacement of \<^verbatim>\<open>window.sendTextareaMessage\<close> that \<^verbatim>\<open>setupMessageInterception\<close>
  installs.\<close>

definition sendTextareaMessage :: "world \<Rightarrow> jstring \<Rightarrow> unit outcome" where
  "sendTextareaMessage w text =
     (if shouldInterceptMessage w text then handleInterception w text
      else callOriginalSendMessage w text)"

definition manualInject :: "world \<Rightarrow> jstring \<Rightarrow> unit outcome" where
  "manualInject w userInput =
     (if \<not> isEnabled (eng w) \<or> \<not> truthyId (activeNovelId (eng w))
      then (Inr (), toast ToastWarning EnableFirst w)
      else handleInterception w userInput)"

text \<open>\<^verbatim>\<open>triggerAutoPilotInjection\<close> swallows what \<^verbatim>\<open>manualInject\<close> throws.\<close>

definition triggerAutoPilotInjection :: "world \<Rightarrow> world" where
  "triggerAutoPilotInjection w =
     (if \<not> isAutoPilotEnabled (eng w) \<or> \<not> isEnabled (eng w) then w
      else snd (manualInject w []))"

definition onAIMessageReceived :: "world \<Rightarrow> world" where
  "onAIMessageReceived w =
     (if \<not> isAutoPilotEnabled (eng w) \<or> \<not> isEnabled (eng w) \<or>
         \<not> truthyId (activeNovelId (eng w))
      then w
      else
        let w1 = (if truthyTimer (autoPilotTimer (eng w))
                  then clearTimeout (the (autoPilotTimer (eng w))) w else w);
            (h, w2) = setTimeout (autoPilotDelay (eng w1)) w1
        in w2\<lparr>eng := (eng w2)\<lparr>autoPilotTimer := Some h\<rparr>\<rparr>)"

text \<open>The platform: the clock reaches \<open>t\<close>; the pending timer \<open>h\<close> fires and runs its
  callback.\<close>

definition clockAt :: "int \<Rightarrow> world \<Rightarrow> world" where
  "clockAt t w = w\<lparr>now := t\<rparr>"

definition fireTimer :: "nat \<Rightarrow> world \<Rightarrow> world" where
  "fireTimer h w =
     (if h \<in> fst ` set (timers w) then triggerAutoPilotInjection (clearTimeout h w) else w)"

section \<open>Notions used in the statements\<close>

text \<open>The words of the paragraphs from index \<open>s\<close> up to, not including, index \<open>j\<close>: the
  running count of the loop when it reaches \<open>j\<close> from \<open>s\<close>.\<close>

definition wordsBetween :: "jstring list \<Rightarrow> int \<Rightarrow> int \<Rightarrow> int" where
  "wordsBetween ps s j = sum_list (map (\<lambda>k. countWordsU (paragraphAt ps k)) [s..j - 1])"

text \<open>The two tests of the loop body: the paragraph is refused before it is taken; the
  walk stops after it has been taken.\<close>

definition rejects :: "jstring list \<Rightarrow> int \<Rightarrow> int \<Rightarrow> int \<Rightarrow> bool" where
  "rejects ps B i tot \<longleftrightarrow> tot > 0 \<and> tot + countWordsU (paragraphAt ps i) > B"

definition breaksAfter :: "jstring list \<Rightarrow> int \<Rightarrow> int \<Rightarrow> int \<Rightarrow> bool" where
  "breaksAfter ps B i tot \<longleftrightarrow>
     tot + countWordsU (paragraphAt ps i) \<ge> B \<and>
     (isGoodBreakPointU (paragraphAt ps i) \<or>
      \<not> (i + 1 < int (length ps) \<and> countWordsU (paragraphAt ps (i + 1)) < 100))"

text \<open>The guard of \<^verbatim>\<open>onAIMessageReceived\<close>: autopilot is on, the engine is enabled and has an
  active novel.\<close>

definition autopilotReady :: "world \<Rightarrow> bool" where
  "autopilotReady w \<longleftrightarrow>
     isAutoPilotEnabled (eng w) \<and> isEnabled (eng w) \<and> truthyId (activeNovelId (eng w))"

text \<open>At most one timer is pending, and a pending timer is the one whose handle the engine
  holds in \<^verbatim>\<open>autoPilotTimer\<close>.\<close>

definition timersTracked :: "world \<Rightarrow> bool" where
  "timersTracked w \<longleftrightarrow>
     length (timers w) \<le> 1 \<and>
     (\<forall>(h, due) \<in> set (timers w). autoPilotTimer (eng w) = Some h \<and> h \<noteq> 0)"

text \<open>Turn-complete signals arriving one after the other, at the given times of the clock,
  with no timer firing in between.\<close>

definition signals :: "int list \<Rightarrow> world \<Rightarrow> world" where
  "signals ts w = foldl (\<lambda>w' t. onAIMessageReceived (clockAt t w')) w ts"

subsection \<open>Example data\<close>

definition emptyNovel :: novel where
  "emptyNovel = \<lparr>filename = ascii ''n1_empty.txt'', title = ascii ''empty'',
     totalParagraphs = 0, currentParagraph = 0, paragraphs = Some []\<rparr>"

definition oversizedFirst :: novel where
  "oversizedFirst = \<lparr>filename = ascii ''n3_big.txt'', title = ascii ''big'',
     totalParagraphs = 2, currentParagraph = 0,
     paragraphs = Some [ascii ''a b c d'', ascii ''e.'']\<rparr>"

definition twoParagraphs :: novel where
  "twoParagraphs = \<lparr>filename = ascii ''n2_two.txt'', title = ascii ''two'',
     totalParagraphs = 2, currentParagraph = 0,
     paragraphs = Some [ascii ''a b c'', ascii ''d'']\<rparr>"

definition oneParagraph :: novel where
  "oneParagraph = \<lparr>filename = ascii ''n1_one.txt'', title = ascii ''one'',
     totalParagraphs = 1, currentParagraph = 0, paragraphs = Some [ascii ''a.'']\<rparr>"

text \<open>A state with one novel, which is the active one; the engine is enabled, autopilot is
  on, the host's send function has been captured, no timer is pending.\<close>

definition defaultSettings :: settings where
  "defaultSettings = \<lparr>enabled = True, savedActiveNovelId = Some (ascii ''n1''),
     autopilotEnabled = True, autopilotDelay = Some 3, prefixTemplate = None,
     collapseContent = False, targetWordCount = None\<rparr>"

definition exampleWorld :: "novel \<Rightarrow> world" where
  "exampleWorld n =
     \<lparr>eng = \<lparr>isEnabled = True, activeNovelId = Some (ascii ''n1''),
              originalSendMessage = True, isAutoPilotEnabled = True, autoPilotDelay = 3000,
              autoPilotTimer = None, engineSettings = defaultSettings\<rparr>,
      textProcessorSettings = defaultSettings,
      novels = [ascii ''n1'' \<mapsto> n],
      storedSettings = None, storedNovels = Map.empty, serverFiles = Map.empty,
      timers = [], timerCounter = 0, now = 0, effects = []\<rparr>"

text \<open>The same state with the engine disabled.\<close>

definition disabledWorld :: world where
  "disabledWorld = (exampleWorld oneParagraph)\<lparr>eng := (eng (exampleWorld oneParagraph))\<lparr>isEnabled := False\<rparr>\<rparr>"

text \<open>The chunk the chunker makes of the one paragraph \<^verbatim>\<open>a.\<close> at cursor 0 (lemma
  \<open>sampleChunk_is_produced\<close>).\<close>

definition sampleChunk :: chunk where
  "sampleChunk = \<lparr>content = ascii ''a.'', startParagraph = 0, endParagraph = 1,
     paragraphCount = 1, wordCount = 1, chapterLabel = [0x7B2C, 49, 0x7AE0]\<rparr>"

section \<open>Evaluation\<close>

text \<open>The definitions that evaluate the string functions on a given text.\<close>

lemmas evalString = ascii_def trim_def isWhiteSpace_def isCJK_def countWords_def
  isGoodBreakPoint_def chineseEndings_def englishEndings_def

lemmas evalEngine = InjectionEngine_getNextChunk_def truthyId_def reloadNovelContent_def
  updateProgress_def saveNovelsData_def TextProcessor_getNextChunk_def getNovel_def
  targetWordCountOf_def defaultTargetWordCount_def collect.simps paragraphAt_def
  countWordsU_def isGoodBreakPointU_def Let_def

section \<open>The loop of the chunker\<close>

lemma wordsBetween_empty [simp]: "wordsBetween ps s s = 0"
  by (simp add: wordsBetween_def)

lemma wordsBetween_first: "s < j \<Longrightarrow> wordsBetween ps s j = countWordsU (paragraphAt ps s) + wordsBetween ps (s + 1) j"
  by (simp add: wordsBetween_def upto_rec1)

lemma wordsBetween_last: "s \<le> j \<Longrightarrow> wordsBetween ps s (j + 1) = wordsBetween ps s j + countWordsU (paragraphAt ps j)"
  by (simp add: wordsBetween_def upto_rec2)

declare collect.simps [simp del]

lemma collect_done: "\<not> i < int (length ps) \<Longrightarrow> collect ps B i st = st"
  by (cases st) (simp add: collect.simps)

lemma collect_reject:
  "i < int (length ps) \<Longrightarrow> rejects ps B i tot \<Longrightarrow> collect ps B i (coll, tot, e) = (coll, tot, e)"
  by (simp add: collect.simps rejects_def)

lemma collect_break:
  "i < int (length ps) \<Longrightarrow> \<not> rejects ps B i tot \<Longrightarrow> breaksAfter ps B i tot \<Longrightarrow>
   collect ps B i (coll, tot, e) =
     (coll @ [paragraphAt ps i], tot + countWordsU (paragraphAt ps i), i + 1)"
  by (subst collect.simps) (auto simp: rejects_def breaksAfter_def Let_def)

lemma collect_continue:
  "i < int (length ps) \<Longrightarrow> \<not> rejects ps B i tot \<Longrightarrow> \<not> breaksAfter ps B i tot \<Longrightarrow>
   collect ps B i (coll, tot, e) =
     collect ps B (i + 1) (coll @ [paragraphAt ps i], tot + countWordsU (paragraphAt ps i), i + 1)"
  by (subst collect.simps) (auto simp: rejects_def breaksAfter_def Let_def)

lemma collect_range:
  "collect ps B i (coll, tot, i) = (coll', tot', e') \<Longrightarrow>
     i \<le> e' \<and> (e' = i \<or> e' \<le> int (length ps)) \<and>
     coll' = coll @ map (paragraphAt ps) [i..e' - 1] \<and>
     tot' = tot + wordsBetween ps i e'"
proof (induction "nat (int (length ps) - i)" arbitrary: i coll tot)
  case 0
  then have "\<not> i < int (length ps)" by simp
  with "0.prems" show ?case by (simp add: collect_done)
next
  case (Suc n)
  then have inr: "i < int (length ps)" by linarith
  let ?p = "paragraphAt ps i"
  let ?w = "countWordsU ?p"
  show ?case
  proof (cases "rejects ps B i tot")
    case True
    with inr Suc.prems show ?thesis by (simp add: collect_reject)
  next
    case False
    note acc = False
    show ?thesis
    proof (cases "breaksAfter ps B i tot")
      case True
      with inr acc Suc.prems have "coll' = coll @ [?p]" "tot' = tot + ?w" "e' = i + 1"
        by (simp_all add: collect_break)
      with inr show ?thesis by (simp add: wordsBetween_first)
    next
      case False
      with inr acc Suc.prems
      have rec: "collect ps B (i + 1) (coll @ [?p], tot + ?w, i + 1) = (coll', tot', e')"
        by (simp add: collect_continue)
      have n: "n = nat (int (length ps) - (i + 1))" using Suc.hyps(2) by linarith
      from Suc.hyps(1)[OF n rec]
      have ih: "i + 1 \<le> e'" "e' = i + 1 \<or> e' \<le> int (length ps)"
        "coll' = (coll @ [?p]) @ map (paragraphAt ps) [i + 1..e' - 1]"
        "tot' = (tot + ?w) + wordsBetween ps (i + 1) e'" by blast+
      from ih(1) have lt: "i < e'" by simp
      have "[i..e' - 1] = i # [i + 1..e' - 1]" using lt by (simp add: upto_rec1)
      moreover have "e' \<le> int (length ps)" using ih(2) inr by linarith
      ultimately show ?thesis using ih(3,4) lt by (simp add: wordsBetween_first)
    qed
  qed
qed


lemma countWords_nonneg: "0 \<le> countWords t"
  by (simp add: countWords_def Let_def)

lemma countWordsU_nonneg: "0 \<le> countWordsU p"
  by (cases p) (simp_all add: countWordsU_def countWords_nonneg)

lemma collect_progress:
  assumes "i < int (length ps)" "\<not> rejects ps B i tot"
    and "collect ps B i (coll, tot, i) = (coll', tot', e')"
  shows "i < e'"
proof (cases "breaksAfter ps B i tot")
  case True
  with assms show ?thesis by (simp add: collect_break)
next
  case False
  with assms
  have "collect ps B (i + 1)
          (coll @ [paragraphAt ps i], tot + countWordsU (paragraphAt ps i), i + 1) =
        (coll', tot', e')"
    by (simp add: collect_continue)
  from collect_range[OF this] show ?thesis by simp
qed

lemma collect_budget:
  "collect ps B i (coll, tot, i) = (coll', tot', e') \<Longrightarrow> i \<le> j \<Longrightarrow> j < e' \<Longrightarrow>
   0 < tot + wordsBetween ps i j \<Longrightarrow>
   tot + wordsBetween ps i j + countWordsU (paragraphAt ps j) \<le> B"
proof (induction "nat (int (length ps) - i)" arbitrary: i coll tot)
  case 0
  then have "\<not> i < int (length ps)" by simp
  with "0.prems" show ?case by (simp add: collect_done)
next
  case (Suc n)
  then have inr: "i < int (length ps)" by linarith
  let ?p = "paragraphAt ps i"
  let ?w = "countWordsU ?p"
  have acc: "\<not> rejects ps B i tot"
  proof
    assume "rejects ps B i tot"
    with inr Suc.prems(1) have "e' = i" by (simp add: collect_reject)
    with Suc.prems(2,3) show False by simp
  qed
  show ?case
  proof (cases "j = i")
    case True
    with acc Suc.prems(4) show ?thesis by (simp add: rejects_def)
  next
    case False
    with Suc.prems(2) have ij: "i + 1 \<le> j" by simp
    have nb: "\<not> breaksAfter ps B i tot"
    proof
      assume "breaksAfter ps B i tot"
      with inr acc Suc.prems(1) have "e' = i + 1" by (simp add: collect_break)
      with ij Suc.prems(3) show False by simp
    qed
    with inr acc Suc.prems(1)
    have rec: "collect ps B (i + 1) (coll @ [?p], tot + ?w, i + 1) = (coll', tot', e')"
      by (simp add: collect_continue)
    have n: "n = nat (int (length ps) - (i + 1))" using Suc.hyps(2) by linarith
    have split: "wordsBetween ps i j = ?w + wordsBetween ps (i + 1) j"
      using ij by (simp add: wordsBetween_first)
    from Suc.hyps(1)[OF n rec ij Suc.prems(3)] Suc.prems(4) show ?thesis
      by (simp add: split)
  qed
qed

lemma collect_reached:
  assumes "i < int (length ps)" "\<not> rejects ps B i tot"
    and "B \<le> tot + countWordsU (paragraphAt ps i)"
    and "0 < tot + countWordsU (paragraphAt ps i)"
    and "B < tot + countWordsU (paragraphAt ps i) \<or> 0 < countWordsU (paragraphAt ps (i + 1))"
  shows "collect ps B i (coll, tot, e) =
           (coll @ [paragraphAt ps i], tot + countWordsU (paragraphAt ps i), i + 1)"
proof (cases "breaksAfter ps B i tot")
  case True
  with assms show ?thesis by (simp add: collect_break)
next
  case False
  with assms(3) have nxt: "i + 1 < int (length ps)" by (auto simp: breaksAfter_def)
  have "rejects ps B (i + 1) (tot + countWordsU (paragraphAt ps i))"
    using assms(3,4,5) countWordsU_nonneg[of "paragraphAt ps (i + 1)"]
    by (auto simp: rejects_def)
  with False assms(1,2) nxt show ?thesis
    by (simp add: collect_continue collect_reject)
qed

lemma paragraphAt_slice:
  assumes "0 \<le> s" "s \<le> e" "e \<le> int (length ps)"
  shows "map (paragraphAt ps) [s..e - 1] = map Some (take (nat (e - s)) (drop (nat s) ps))"
proof (rule nth_equalityI)
  show "length (map (paragraphAt ps) [s..e - 1]) =
        length (map Some (take (nat (e - s)) (drop (nat s) ps)))"
    using assms by simp
next
  fix k assume "k < length (map (paragraphAt ps) [s..e - 1])"
  then have k: "int k < e - s" by simp
  then have "[s..e - 1] ! k = s + int k" by (simp add: nth_upto)
  moreover have "nat (s + int k) = nat s + k" using assms(1) by linarith
  ultimately show "map (paragraphAt ps) [s..e - 1] ! k =
        map Some (take (nat (e - s)) (drop (nat s) ps)) ! k"
    using k assms by (simp add: paragraphAt_def)
qed

section \<open>Claims about the chunker\<close>

text \<open>
  C10. With the novel's paragraphs loaded, \<^verbatim>\<open>TextProcessor.getNextChunk\<close> returns no chunk
  exactly when the start index is at or past the end of the paragraph list, whatever the
  budget; for the empty list and cursor 0 it returns no chunk.
\<close>

theorem C10_no_chunk_iff_past_end:
  assumes "getNovel ns novelId = Some novel" and "paragraphs novel = Some ps"
  shows "TextProcessor_getNextChunk setting ns novelId s = None \<longleftrightarrow> int (length ps) \<le> s"
proof (cases "int (length ps) \<le> s")
  case True
  with assms show ?thesis by (simp add: TextProcessor_getNextChunk_def)
next
  case False
  obtain coll tot e where c: "collect ps (targetWordCountOf setting) s ([], 0, s) = (coll, tot, e)"
    by (cases "collect ps (targetWordCountOf setting) s ([], 0, s)") auto
  have "s < e" using collect_progress[OF _ _ c] False by (simp add: rejects_def)
  moreover have "coll = [] @ map (paragraphAt ps) [s..e - 1]" using collect_range[OF c] by blast
  ultimately have "length coll \<noteq> 0" by simp
  with assms False c show ?thesis by (simp add: TextProcessor_getNextChunk_def Let_def)
qed

theorem C10_witness:
  "getNovel [ascii ''n1'' \<mapsto> emptyNovel] (ascii ''n1'') = Some emptyNovel \<and>
   paragraphs emptyNovel = Some [] \<and>
   TextProcessor_getNextChunk (Some 500) [ascii ''n1'' \<mapsto> emptyNovel] (ascii ''n1'') 0 = None"
proof -
  have h1: "getNovel [ascii ''n1'' \<mapsto> emptyNovel] (ascii ''n1'') = Some emptyNovel"
    by (simp add: getNovel_def)
  have h2: "paragraphs emptyNovel = Some []" by (simp add: emptyNovel_def)
  from C10_no_chunk_iff_past_end[OF h1 h2, of "Some 500" 0] h1 h2 show ?thesis by simp
qed

text \<open>
  C6. From a start index inside the paragraph list and with a positive budget the chunker
  returns a chunk that starts at the start index and holds at least the first paragraph,
  whole, whatever its size; the chunk is the paragraphs from the start index up to its end
  index, which is at most the length of the list. A paragraph is never taken when the
  running count is positive and would pass the budget with it, and a first paragraph larger than
  the budget is the whole chunk. The walk is a total function, so it always returns.
\<close>

theorem C6_first_paragraph_always_taken:
  assumes "getNovel ns novelId = Some novel" and "paragraphs novel = Some ps"
    and "0 \<le> s" and "s < int (length ps)" and "0 < targetWordCountOf setting"
  shows "\<exists>c. TextProcessor_getNextChunk setting ns novelId s = Some c \<and>
           startParagraph c = s \<and> s < endParagraph c \<and> endParagraph c \<le> int (length ps) \<and>
           paragraphCount c = nat (endParagraph c - s) \<and> 1 \<le> paragraphCount c \<and>
           content c = join [10, 10]
             (map Some (take (nat (endParagraph c - s)) (drop (nat s) ps))) \<and>
           wordCount c = wordsBetween ps s (endParagraph c) \<and>
           (\<forall>j. s \<le> j \<and> j < endParagraph c \<and> 0 < wordsBetween ps s j \<longrightarrow>
                wordsBetween ps s j + countWords (ps ! nat j) \<le> targetWordCountOf setting) \<and>
           (targetWordCountOf setting < countWords (ps ! nat s) \<longrightarrow> endParagraph c = s + 1)"
proof -
  let ?B = "targetWordCountOf setting"
  obtain coll tot e where c: "collect ps ?B s ([], 0, s) = (coll, tot, e)"
    by (cases "collect ps ?B s ([], 0, s)") auto
  have nr: "\<not> rejects ps ?B s 0" by (simp add: rejects_def)
  have lt: "s < e" using collect_progress[OF assms(4) nr c] .
  from collect_range[OF c] lt
  have le: "e \<le> int (length ps)" and coll: "coll = map (paragraphAt ps) [s..e - 1]"
    and tot: "tot = wordsBetween ps s e" by auto
  have slice: "coll = map Some (take (nat (e - s)) (drop (nat s) ps))"
    using coll paragraphAt_slice[OF assms(3) _ le, of ] lt by simp
  have len: "length coll = nat (e - s)" using slice le assms(3) lt by simp
  have ne: "length coll \<noteq> 0" using len lt by simp
  have res: "TextProcessor_getNextChunk setting ns novelId s =
      Some \<lparr>content = join [10, 10] coll, startParagraph = s, endParagraph = e,
            paragraphCount = length coll, wordCount = tot,
            chapterLabel = extractChapter (join [10, 10] coll) s\<rparr>"
    using assms(1,2,4) c ne by (simp add: TextProcessor_getNextChunk_def Let_def)
  have budget: "\<forall>j. s \<le> j \<and> j < e \<and> 0 < wordsBetween ps s j \<longrightarrow>
                wordsBetween ps s j + countWords (ps ! nat j) \<le> ?B"
  proof (intro allI impI)
    fix j assume j: "s \<le> j \<and> j < e \<and> 0 < wordsBetween ps s j"
    then have "0 + wordsBetween ps s j + countWordsU (paragraphAt ps j) \<le> ?B"
      using collect_budget[OF c, of j] by simp
    moreover have "paragraphAt ps j = Some (ps ! nat j)"
      using j assms(3) le by (simp add: paragraphAt_def)
    ultimately show "wordsBetween ps s j + countWords (ps ! nat j) \<le> ?B"
      by (simp add: countWordsU_def)
  qed
  have big: "?B < countWords (ps ! nat s) \<longrightarrow> e = s + 1"
  proof
    assume b: "?B < countWords (ps ! nat s)"
    have p: "paragraphAt ps s = Some (ps ! nat s)"
      using assms(3,4) by (simp add: paragraphAt_def)
    have "collect ps ?B s ([], 0, s) =
            ([] @ [paragraphAt ps s], 0 + countWordsU (paragraphAt ps s), s + 1)"
      using b assms(5) p by (intro collect_reached[OF assms(4) nr]) (simp_all add: countWordsU_def)
    with c show "e = s + 1" by simp
  qed
  show ?thesis
    using res lt le len slice tot budget big by simp
qed

theorem C6_witness:
  "getNovel [ascii ''n3'' \<mapsto> oversizedFirst] (ascii ''n3'') = Some oversizedFirst \<and>
   paragraphs oversizedFirst = Some [ascii ''a b c d'', ascii ''e.''] \<and>
   (0::int) \<le> 0 \<and> 0 < int (length [ascii ''a b c d'', ascii ''e.'']) \<and>
   0 < targetWordCountOf (Some 3) \<and>
   targetWordCountOf (Some 3) < countWords (ascii ''a b c d'') \<and>
   (\<exists>c. TextProcessor_getNextChunk (Some 3) [ascii ''n3'' \<mapsto> oversizedFirst] (ascii ''n3'') 0 =
          Some c \<and> startParagraph c = 0 \<and> endParagraph c = 1 \<and> paragraphCount c = 1 \<and>
          content c = ascii ''a b c d'')"
proof -
  have h1: "getNovel [ascii ''n3'' \<mapsto> oversizedFirst] (ascii ''n3'') = Some oversizedFirst"
    by (simp add: getNovel_def)
  have h2: "paragraphs oversizedFirst = Some [ascii ''a b c d'', ascii ''e.'']"
    by (simp add: oversizedFirst_def)
  have h3: "(0::int) \<le> 0" by simp
  have h4: "0 < int (length [ascii ''a b c d'', ascii ''e.''])" by simp
  have h5: "0 < targetWordCountOf (Some 3)" by (simp add: targetWordCountOf_def)
  have h6: "targetWordCountOf (Some 3) < countWords (ascii ''a b c d'')"
    by (simp add: targetWordCountOf_def countWords_def ascii_def trim_def isWhiteSpace_def
        isCJK_def)
  from C6_first_paragraph_always_taken[OF h1 h2 h3 h4 h5] h6
  obtain c where
    "TextProcessor_getNextChunk (Some 3) [ascii ''n3'' \<mapsto> oversizedFirst] (ascii ''n3'') 0 =
       Some c"
    "startParagraph c = 0" "endParagraph c = 1" "paragraphCount c = 1"
    "content c = ascii ''a b c d''"
    by auto
  with h1 h2 h4 h5 h6 show ?thesis by simp
qed

text \<open>
  C5. The claim: when the running count has reached the budget after a paragraph that does
  not end on terminal punctuation and the next paragraph is short, the next paragraph is
  absorbed. The code does not do that. With budget 3 and the paragraphs \<^verbatim>\<open>a b c\<close> (3 words,
  no terminal punctuation) and \<^verbatim>\<open>d\<close> (1 word), the chunk from index 0 ends at index 1: the
  \<^verbatim>\<open>continue\<close> leads to the test at the top of the loop, which refuses every paragraph
  with at least one word once the budget is reached (lemma \<open>collect_reached\<close>).
\<close>

theorem C5_short_next_paragraph_left_out:
  "countWords (ascii ''a b c'') = 3 \<and> \<not> isGoodBreakPoint (ascii ''a b c'') \<and>
   countWords (ascii ''d'') = 1 \<and>
   map_option (\<lambda>c. (startParagraph c, endParagraph c, wordCount c))
     (TextProcessor_getNextChunk (Some 3) [ascii ''n2'' \<mapsto> twoParagraphs] (ascii ''n2'') 0) =
   Some (0, 1, 3)"
  by (simp add: TextProcessor_getNextChunk_def getNovel_def twoParagraphs_def
      targetWordCountOf_def collect.simps paragraphAt_def countWordsU_def isGoodBreakPointU_def
      evalString Let_def)

section \<open>Claims about the cursor\<close>

text \<open>
  C2. For a novel whose \<^verbatim>\<open>totalParagraphs\<close> is at least 1 and every integer \<open>p\<close>,
  \<^verbatim>\<open>updateProgress\<close> succeeds and leaves the cursor at \<open>max 0 (min p (totalParagraphs - 1))\<close>:
  between 0 and \<open>totalParagraphs - 1\<close>, never \<open>totalParagraphs\<close>, so the test
  \<^verbatim>\<open>currentParagraph >= totalParagraphs\<close> of the engine is false after it.
\<close>

theorem C2_progress_clamped_below_total:
  assumes "novels w novelId = Some novel" and "1 \<le> totalParagraphs novel"
  shows "\<exists>w' novel'. updateProgress w novelId p = (Inr (), w') \<and>
           novels w' novelId = Some novel' \<and>
           totalParagraphs novel' = totalParagraphs novel \<and>
           currentParagraph novel' = max 0 (min p (totalParagraphs novel - 1)) \<and>
           0 \<le> currentParagraph novel' \<and>
           currentParagraph novel' \<le> totalParagraphs novel' - 1 \<and>
           \<not> currentParagraph novel' \<ge> totalParagraphs novel'"
proof -
  let ?n = "novel\<lparr>currentParagraph := max 0 (min p (totalParagraphs novel - 1))\<rparr>"
  let ?w = "saveNovelsData (w\<lparr>novels := (novels w)(novelId \<mapsto> ?n)\<rparr>)"
  have run: "updateProgress w novelId p = (Inr (), ?w)"
    using assms(1) by (simp add: updateProgress_def)
  have stored: "novels ?w novelId = Some ?n" by (simp add: saveNovelsData_def)
  have bounds: "0 \<le> currentParagraph ?n" "currentParagraph ?n \<le> totalParagraphs ?n - 1"
    using assms(2) by auto
  then have "\<not> currentParagraph ?n \<ge> totalParagraphs ?n" by linarith
  with run stored bounds show ?thesis by simp
qed

theorem C2_witness:
  "novels (exampleWorld oneParagraph) (ascii ''n1'') = Some oneParagraph \<and>
   1 \<le> totalParagraphs oneParagraph \<and>
   (\<exists>w' novel'. updateProgress (exampleWorld oneParagraph) (ascii ''n1'') 1 = (Inr (), w') \<and>
      novels w' (ascii ''n1'') = Some novel' \<and> currentParagraph novel' = 0 \<and>
      totalParagraphs novel' = 1)"
proof -
  have h1: "novels (exampleWorld oneParagraph) (ascii ''n1'') = Some oneParagraph"
    by (simp add: exampleWorld_def)
  have h2: "1 \<le> totalParagraphs oneParagraph" by (simp add: oneParagraph_def)
  have t: "totalParagraphs oneParagraph = 1" by (simp add: oneParagraph_def)
  from C2_progress_clamped_below_total[OF h1 h2, of 1] h1 h2 t show ?thesis by auto
qed

text \<open>
  C1. The claim: extracting chunks from cursor 0, the cursor moved to each chunk's
  \<^verbatim>\<open>endParagraph\<close> by \<^verbatim>\<open>updateProgress\<close>, consumes every paragraph once and ends with the
  cursor at the paragraph count. The code does not do that. For a novel of the one
  paragraph \<^verbatim>\<open>a.\<close> the engine's \<^verbatim>\<open>getNextChunk\<close> returns the chunk of paragraphs 0 to 1 and
  \<^verbatim>\<open>updateProgress\<close> clamps the cursor to 0; the next call returns the same chunk again,
  and the cursor is never 1.
\<close>

theorem C1_cursor_never_reaches_count:
  "(case InjectionEngine_getNextChunk (exampleWorld oneParagraph) of (r1, w1) \<Rightarrow>
    case InjectionEngine_getNextChunk w1 of (r2, w2) \<Rightarrow>
      map_sum id (map_option (\<lambda>c. (startParagraph c, endParagraph c))) r1 = Inr (Some (0, 1)) \<and>
      map_option currentParagraph (novels w1 (ascii ''n1'')) = Some 0 \<and>
      map_sum id (map_option (\<lambda>c. (startParagraph c, endParagraph c))) r2 = Inr (Some (0, 1)) \<and>
      map_option currentParagraph (novels w2 (ascii ''n1'')) = Some 0 \<and>
      map_option (\<lambda>n. length (the (paragraphs n))) (novels w2 (ascii ''n1'')) = Some 1)"
  by (simp add: InjectionEngine_getNextChunk_def exampleWorld_def oneParagraph_def
      defaultSettings_def truthyId_def reloadNovelContent_def updateProgress_def
      saveNovelsData_def
      TextProcessor_getNextChunk_def getNovel_def
      targetWordCountOf_def defaultTargetWordCount_def collect.simps paragraphAt_def
      countWordsU_def isGoodBreakPointU_def evalString Let_def)

section \<open>Claims about the formatted chunk\<close>

lemma sampleChunk_is_produced:
  "fst (InjectionEngine_getNextChunk (exampleWorld oneParagraph)) = Inr (Some sampleChunk)"
  by (simp add: evalEngine exampleWorld_def oneParagraph_def defaultSettings_def sampleChunk_def
      evalString extractChapter_def firstChapterLine.simps chapterPatterns_def numeralsThen_def
      isChapterNumeral_def isDigit_def startsWithIgnoreCase_def toLowerAscii_def
      fallbackChapter_def numberToString_def)

text \<open>
  C3. The claim: the formatted chunk contains the marker that the marker check of the
  act-path recognises, so a formatted chunk fed back is passed through. The code does not
  do that. \<^verbatim>\<open>formatChunkContent\<close> appends a marker that has the text \<^verbatim>\<open> - \<close> and four more
  characters between the name and the closing bracket, while \<^verbatim>\<open>isNovelContent\<close> looks for
  the name directly followed by the closing bracket (or for \<^verbatim>\<open>[Novel Injector]\<close>). The
  formatted sample chunk is not classified as novel content, and with the engine enabled
  \<^verbatim>\<open>shouldInterceptMessage\<close> answers that it is to be intercepted.
\<close>

theorem C3_formatted_chunk_not_recognised:
  "formatChunkContent (exampleWorld oneParagraph) sampleChunk (ascii ''hi'') =
     ascii ''a.'' @ appendedMarker \<and>
   \<not> isNovelContent (formatChunkContent (exampleWorld oneParagraph) sampleChunk (ascii ''hi'')) \<and>
   shouldInterceptMessage (exampleWorld oneParagraph)
     (formatChunkContent (exampleWorld oneParagraph) sampleChunk (ascii ''hi''))"
  by (simp add: formatChunkContent_def shouldInterceptMessage_def isNovelContent_def
      exampleWorld_def defaultSettings_def sampleChunk_def appendedMarker_def markerChinese_def
      markerEnglish_def truthyId_def ascii_def startsWith_def getNovel_def)

text \<open>With collapse mode on, a non-empty original input is part of the formatted chunk.\<close>

lemma includesStr_prefix: "includesStr (t @ b) t"
proof (cases "t @ b")
  case Nil
  then show ?thesis by simp
next
  case (Cons x xs)
  have "take (length t) (t @ b) = t" by simp
  with Cons have "startsWith (x # xs) t" by (simp add: startsWith_def)
  with Cons show ?thesis by simp
qed

lemma includesStr_append: "includesStr (a @ t @ b) t"
proof (induction a)
  case Nil
  show ?case by (simp add: includesStr_prefix)
next
  case (Cons c a)
  then show ?case by simp
qed

lemma includesStr_middle: "includesStr s t \<Longrightarrow> includesStr (a @ s @ b) t"
proof (induction s arbitrary: a)
  case Nil
  then have "t = []" by simp
  then show ?case using includesStr_append[of a "[]" b] by simp
next
  case (Cons c s)
  show ?case
  proof (cases "startsWith (c # s) t")
    case True
    then have "c # s = t @ drop (length t) (c # s)"
      by (metis append_take_drop_id startsWith_def)
    then have "a @ (c # s) @ b = a @ t @ (drop (length t) (c # s) @ b)"
      by (metis append.assoc)
    then show ?thesis using includesStr_append[of a t] by metis
  next
    case False
    with Cons.prems have "includesStr s t" by simp
    from Cons.IH[OF this, of "a @ [c]"] show ?thesis by simp
  qed
qed

lemma collapsible_keeps_original:
  "originalText \<noteq> [] \<Longrightarrow>
   includesStr (createCollapsibleContent dateNow novelContent originalText) originalText"
proof -
  assume ne: "originalText \<noteq> []"
  obtain a where "createCollapsibleContent dateNow novelContent originalText =
      a @ originalText @ ([10] @ ascii ''        '')"
    using ne by (simp add: createCollapsibleContent_def Let_def)
  then show ?thesis using includesStr_append by metis
qed

lemma collapse_mode_keeps_original:
  assumes "collapseContent (engineSettings (eng w))" and "originalText \<noteq> []"
  shows "includesStr (formatChunkContent w c originalText) originalText"
proof -
  obtain a where "formatChunkContent w c originalText =
      a @ createCollapsibleContent (now w) (content c) originalText @ appendedMarker"
    using assms(1) by (simp add: formatChunkContent_def Let_def)
  then show ?thesis
    using includesStr_middle[OF collapsible_keeps_original[OF assms(2)]] by metis
qed

text \<open>
  C4. The claim: in both collapse modes the text delivered in place of the original input
  contains the original input. The code does not do that with collapse mode off: the
  act-path on the input \<^verbatim>\<open>hi\<close> delivers the chunk and the marker only; only
  \<^verbatim>\<open>createCollapsibleContent\<close>, the branch of collapse mode, appends the original input
  (lemma \<open>collapse_mode_keeps_original\<close>).
\<close>

theorem C4_original_text_dropped:
  "(case sendTextareaMessage (exampleWorld oneParagraph) (ascii ''hi'') of (r, w') \<Rightarrow>
      r = Inr () \<and>
      effects w' = [Deliver (ascii ''a.'' @ appendedMarker),
                    ChunkInjected (Some (ascii ''n1'')) sampleChunk]) \<and>
   \<not> collapseContent (engineSettings (eng (exampleWorld oneParagraph))) \<and>
   \<not> includesStr (ascii ''a.'' @ appendedMarker) (ascii ''hi'')"
  by (simp add: sendTextareaMessage_def shouldInterceptMessage_def isNovelContent_def
      handleInterception_def sendNovelChunk_def callOriginalSendMessage_def
      formatChunkContent_def evalEngine
      exampleWorld_def oneParagraph_def defaultSettings_def sampleChunk_def appendedMarker_def
      markerChinese_def markerEnglish_def startsWith_def
      evalString extractChapter_def firstChapterLine.simps chapterPatterns_def numeralsThen_def
      isChapterNumeral_def isDigit_def startsWithIgnoreCase_def toLowerAscii_def
      fallbackChapter_def numberToString_def)

section \<open>Claims about the controller\<close>

text \<open>
  C9. When the engine is disabled or has no active novel, the act-path hands the text
  unchanged to the host's send function and changes nothing else: no chunk is made and
  every novel, so every cursor, is as before.
\<close>

theorem C9_pass_through_when_inactive:
  assumes "\<not> isEnabled (eng w) \<or> activeNovelId (eng w) = None"
    and "originalSendMessage (eng w)"
  shows "sendTextareaMessage w text = (Inr (), w\<lparr>effects := effects w @ [Deliver text]\<rparr>)"
  using assms
  by (auto simp: sendTextareaMessage_def shouldInterceptMessage_def truthyId_def
      callOriginalSendMessage_def)

theorem C9_witness:
  "\<not> isEnabled (eng disabledWorld) \<and> originalSendMessage (eng disabledWorld) \<and>
   (case sendTextareaMessage disabledWorld (ascii ''hi'') of (r, w') \<Rightarrow>
      r = Inr () \<and> effects w' = [Deliver (ascii ''hi'')] \<and> novels w' = novels disabledWorld)"
proof -
  have h1: "\<not> isEnabled (eng disabledWorld) \<or> activeNovelId (eng disabledWorld) = None"
    by (simp add: disabledWorld_def)
  have h2: "originalSendMessage (eng disabledWorld)"
    by (simp add: disabledWorld_def exampleWorld_def)
  have e: "effects disabledWorld = []" by (simp add: disabledWorld_def exampleWorld_def)
  have h0: "\<not> isEnabled (eng disabledWorld)" by (simp add: disabledWorld_def)
  from C9_pass_through_when_inactive[OF h1 h2, of "ascii ''hi''"] h0 h2 e show ?thesis by simp
qed

lemma getNextChunk_none_state:
  assumes "InjectionEngine_getNextChunk w = (Inr None, w1)"
  shows "eng w1 = eng w \<and> effects w1 = effects w \<and> timers w1 = timers w \<and>
         (\<forall>k. map_option currentParagraph (novels w1 k) = map_option currentParagraph (novels w k))"
  using assms
  by (auto simp: InjectionEngine_getNextChunk_def reloadNovelContent_def updateProgress_def
      Let_def getNovel_def split: if_splits option.splits sum.splits prod.splits)

text \<open>
  C7. When the act-path intercepts a text and \<^verbatim>\<open>getNextChunk\<close> of the engine reports no
  chunk, the engine goes from enabled to disabled, with no active novel and no timer held,
  the caller is told by a warning toast that the novel is finished, and the original text
  is delivered unchanged through the host's send function; no cursor moves.
\<close>

theorem C7_exhausted_disables_and_delivers:
  assumes "shouldInterceptMessage w text" and "originalSendMessage (eng w)"
    and "fst (InjectionEngine_getNextChunk w) = Inr None"
  shows "\<exists>w'. sendTextareaMessage w text = (Inr (), w') \<and>
           isEnabled (eng w) \<and> \<not> isEnabled (eng w') \<and> activeNovelId (eng w') = None \<and>
           \<not> truthyTimer (autoPilotTimer (eng w')) \<and>
           effects w' = effects w @
             [Toast ToastWarning NovelFinished, Toast ToastInfo EngineDisabled, Deliver text] \<and>
           (\<forall>k. map_option currentParagraph (novels w' k) =
                map_option currentParagraph (novels w k))"
proof -
  obtain w1 where g: "InjectionEngine_getNextChunk w = (Inr None, w1)"
    using assms(3) by (cases "InjectionEngine_getNextChunk w") auto
  note st = getNextChunk_none_state[OF g]
  let ?w2 = "disable (toast ToastWarning NovelFinished w1)"
  have en: "isEnabled (eng w)" using assms(1)
    by (simp add: shouldInterceptMessage_def split: if_splits)
  have d: "\<not> isEnabled (eng ?w2)" "activeNovelId (eng ?w2) = None"
    "\<not> truthyTimer (autoPilotTimer (eng ?w2))"
    "originalSendMessage (eng ?w2) = originalSendMessage (eng w1)"
    "effects ?w2 = effects w1 @ [Toast ToastWarning NovelFinished, Toast ToastInfo EngineDisabled]"
    "novels ?w2 = novels w1"
    by (simp_all add: disable_def toast_def saveSettings_def clearTimeout_def Let_def
        truthyTimer_def)
  have "sendTextareaMessage w text =
          (Inr (), ?w2\<lparr>effects := effects ?w2 @ [Deliver text]\<rparr>)"
    using assms(1,2) g st d(4)
    by (simp add: sendTextareaMessage_def handleInterception_def callOriginalSendMessage_def)
  with en d st show ?thesis by simp
qed

theorem C7_witness:
  "shouldInterceptMessage (exampleWorld emptyNovel) (ascii ''hi'') \<and>
   originalSendMessage (eng (exampleWorld emptyNovel)) \<and>
   fst (InjectionEngine_getNextChunk (exampleWorld emptyNovel)) = Inr None \<and>
   (\<exists>w'. sendTextareaMessage (exampleWorld emptyNovel) (ascii ''hi'') = (Inr (), w') \<and>
      \<not> isEnabled (eng w') \<and>
      effects w' =
        [Toast ToastWarning NovelFinished, Toast ToastInfo EngineDisabled, Deliver (ascii ''hi'')])"
proof -
  have h1: "shouldInterceptMessage (exampleWorld emptyNovel) (ascii ''hi'')"
    by (simp add: shouldInterceptMessage_def exampleWorld_def truthyId_def isNovelContent_def
        markerChinese_def markerEnglish_def ascii_def startsWith_def)
  have h2: "originalSendMessage (eng (exampleWorld emptyNovel))"
    by (simp add: exampleWorld_def)
  have h3: "fst (InjectionEngine_getNextChunk (exampleWorld emptyNovel)) = Inr None"
    by (simp add: InjectionEngine_getNextChunk_def exampleWorld_def truthyId_def getNovel_def
        emptyNovel_def ascii_def Let_def)
  have e: "effects (exampleWorld emptyNovel) = []" by (simp add: exampleWorld_def)
  from C7_exhausted_disables_and_delivers[OF h1 h2 h3] h1 h2 h3 e show ?thesis by auto
qed

lemma signal_when_ready:
  assumes "autopilotReady w" and "timersTracked w"
  shows "timers (onAIMessageReceived w) =
           [(Suc (timerCounter w), now w + autoPilotDelay (eng w))] \<and>
         autoPilotTimer (eng (onAIMessageReceived w)) = Some (Suc (timerCounter w)) \<and>
         timerCounter (onAIMessageReceived w) = Suc (timerCounter w) \<and>
         autoPilotDelay (eng (onAIMessageReceived w)) = autoPilotDelay (eng w) \<and>
         autopilotReady (onAIMessageReceived w)"
proof (cases "timers w")
  case Nil
  with assms(1) show ?thesis
    by (simp add: onAIMessageReceived_def autopilotReady_def clearTimeout_def setTimeout_def
        Let_def)
next
  case (Cons x xs)
  with assms(2) have xs: "xs = []" by (simp add: timersTracked_def)
  obtain h due where x: "x = (h, due)" by (cases x)
  from assms(2) Cons x have "autoPilotTimer (eng w) = Some h" "h \<noteq> 0"
    by (simp_all add: timersTracked_def)
  with assms(1) Cons xs x show ?thesis
    by (simp add: onAIMessageReceived_def autopilotReady_def clearTimeout_def setTimeout_def
        Let_def truthyTimer_def)
qed

lemma signal_when_not_ready: "\<not> autopilotReady w \<Longrightarrow> onAIMessageReceived w = w"
  by (auto simp: onAIMessageReceived_def autopilotReady_def)

lemma clockAt_fields [simp]:
  "timers (clockAt t w) = timers w" "eng (clockAt t w) = eng w"
  "timerCounter (clockAt t w) = timerCounter w" "now (clockAt t w) = t"
  by (simp_all add: clockAt_def)

lemma clockAt_ready [simp]: "autopilotReady (clockAt t w) = autopilotReady w"
  by (simp add: autopilotReady_def)

lemma clockAt_tracked [simp]: "timersTracked (clockAt t w) = timersTracked w"
  by (simp add: timersTracked_def)

lemma signal_keeps_tracked:
  assumes "timersTracked w"
  shows "timersTracked (onAIMessageReceived w)"
proof (cases "autopilotReady w")
  case True
  from signal_when_ready[OF True assms] show ?thesis by (simp add: timersTracked_def)
next
  case False
  with assms show ?thesis by (simp add: signal_when_not_ready)
qed

lemma signals_keep_tracked: "timersTracked w \<Longrightarrow> timersTracked (signals ts w)"
proof (induction ts arbitrary: w)
  case Nil
  then show ?case by (simp add: signals_def)
next
  case (Cons t ts)
  have "timersTracked (onAIMessageReceived (clockAt t w))"
    using Cons.prems by (simp add: signal_keeps_tracked)
  from Cons.IH[OF this] show ?case by (simp add: signals_def)
qed

lemma getNextChunk_timers:
  "timers (snd (InjectionEngine_getNextChunk w)) = timers w"
  by (auto simp: InjectionEngine_getNextChunk_def reloadNovelContent_def updateProgress_def
      saveNovelsData_def Let_def getNovel_def split: if_splits option.splits sum.splits prod.splits)

lemma disable_timers_empty: "timers w = [] \<Longrightarrow> timers (disable w) = []"
  by (simp add: disable_def toast_def saveSettings_def clearTimeout_def Let_def)

lemma callOriginal_timers: "timers (snd (callOriginalSendMessage w t)) = timers w"
  by (simp add: callOriginalSendMessage_def)

lemma handleInterception_timers_empty:
  assumes "timers w = []"
  shows "timers (snd (handleInterception w t)) = []"
proof -
  obtain r w1 where g: "InjectionEngine_getNextChunk w = (r, w1)"
    by (cases "InjectionEngine_getNextChunk w")
  have t1: "timers w1 = []" using getNextChunk_timers[of w] g assms by simp
  show ?thesis
    using g t1 disable_timers_empty[of "toast ToastWarning NovelFinished w1"]
    by (auto simp: handleInterception_def sendNovelChunk_def callOriginalSendMessage_def
        toast_def split: sum.splits option.splits prod.splits if_splits)
qed

lemma fireTimer_single:
  assumes "timers w = [(h, due)]"
  shows "timers (fireTimer h w) = []"
proof -
  have c: "timers (clearTimeout h w) = []" using assms by (simp add: clearTimeout_def)
  have "timers (triggerAutoPilotInjection (clearTimeout h w)) = []"
    using c handleInterception_timers_empty[OF c, of "[]"]
    by (simp add: triggerAutoPilotInjection_def manualInject_def toast_def)
  with assms show ?thesis by (simp add: fireTimer_def)
qed

text \<open>
  C8. Starting from a state where at most one timer is pending and it is the one the engine
  holds, every sequence of turn-complete signals leaves at most one timer pending. A signal
  that passes the guard cancels the held timer and arms one new timer, due one delay after
  the signal; after two signals in a row exactly one timer is pending, due one delay after
  the second signal, and when it fires no timer is pending after it. A signal that fails
  the guard (autopilot off, engine disabled or no active novel) changes nothing, so it arms
  no timer.
\<close>

theorem C8_signal_rearms_single_timer:
  "(timersTracked w \<longrightarrow> timersTracked (signals ts w) \<and> length (timers (signals ts w)) \<le> 1) \<and>
   (timersTracked w \<and> autopilotReady w \<longrightarrow>
      timers (onAIMessageReceived w) =
        [(Suc (timerCounter w), now w + autoPilotDelay (eng w))] \<and>
      timers (signals [t1, t2] w) =
        [(Suc (Suc (timerCounter w)), t2 + autoPilotDelay (eng w))] \<and>
      autoPilotTimer (eng (signals [t1, t2] w)) = Some (Suc (Suc (timerCounter w))) \<and>
      timers (fireTimer (Suc (Suc (timerCounter w))) (signals [t1, t2] w)) = []) \<and>
   (\<not> autopilotReady w \<longrightarrow> onAIMessageReceived w = w)"
proof (intro conjI impI)
  assume "timersTracked w"
  then show "timersTracked (signals ts w)" by (rule signals_keep_tracked)
  then show "length (timers (signals ts w)) \<le> 1" by (simp add: timersTracked_def)
next
  assume a: "timersTracked w \<and> autopilotReady w"
  then show "timers (onAIMessageReceived w) =
        [(Suc (timerCounter w), now w + autoPilotDelay (eng w))]"
    using signal_when_ready by blast
  let ?w1 = "onAIMessageReceived (clockAt t1 w)"
  have s1: "timers ?w1 = [(Suc (timerCounter w), t1 + autoPilotDelay (eng w))]"
    "timerCounter ?w1 = Suc (timerCounter w)"
    "autoPilotDelay (eng ?w1) = autoPilotDelay (eng w)" "autopilotReady ?w1"
    using signal_when_ready[of "clockAt t1 w"] a by simp_all
  have tr: "timersTracked ?w1" using a by (simp add: signal_keeps_tracked)
  have two: "signals [t1, t2] w = onAIMessageReceived (clockAt t2 ?w1)"
    by (simp add: signals_def)
  from signal_when_ready[of "clockAt t2 ?w1"] s1 tr
  show pending: "timers (signals [t1, t2] w) =
        [(Suc (Suc (timerCounter w)), t2 + autoPilotDelay (eng w))]"
    and "autoPilotTimer (eng (signals [t1, t2] w)) = Some (Suc (Suc (timerCounter w)))"
    by (simp_all add: two)
  from fireTimer_single[OF pending]
  show "timers (fireTimer (Suc (Suc (timerCounter w))) (signals [t1, t2] w)) = []" .
next
  assume "\<not> autopilotReady w"
  then show "onAIMessageReceived w = w" by (rule signal_when_not_ready)
qed

theorem C8_witness:
  "timersTracked (exampleWorld oneParagraph) \<and> autopilotReady (exampleWorld oneParagraph) \<and>
   timers (signals [1000, 2000] (exampleWorld oneParagraph)) = [(2, 5000)] \<and>
   timers (fireTimer 2 (signals [1000, 2000] (exampleWorld oneParagraph))) = [] \<and>
   effects (fireTimer 2 (signals [1000, 2000] (exampleWorld oneParagraph))) =
     [Deliver (ascii ''a.'' @ appendedMarker), ChunkInjected (Some (ascii ''n1'')) sampleChunk] \<and>
   \<not> autopilotReady disabledWorld \<and> timers (onAIMessageReceived disabledWorld) = []"
proof -
  have h1: "timersTracked (exampleWorld oneParagraph)"
    by (simp add: timersTracked_def exampleWorld_def)
  have h2: "autopilotReady (exampleWorld oneParagraph)"
    by (simp add: autopilotReady_def exampleWorld_def truthyId_def ascii_def)
  have h3: "\<not> autopilotReady disabledWorld"
    by (simp add: autopilotReady_def disabledWorld_def)
  have v: "timerCounter (exampleWorld oneParagraph) = 0"
    "autoPilotDelay (eng (exampleWorld oneParagraph)) = 3000"
    "timers disabledWorld = []"
    by (simp_all add: exampleWorld_def disabledWorld_def)
  from C8_signal_rearms_single_timer[of "exampleWorld oneParagraph" "[]" 1000 2000] h1 h2
  have a: "timers (signals [1000, 2000] (exampleWorld oneParagraph)) = [(2, 5000)]"
    "timers (fireTimer 2 (signals [1000, 2000] (exampleWorld oneParagraph))) = []"
    by (simp_all add: v numeral_2_eq_2)
  have f: "effects (fireTimer 2 (signals [1000, 2000] (exampleWorld oneParagraph))) =
     [Deliver (ascii ''a.'' @ appendedMarker), ChunkInjected (Some (ascii ''n1'')) sampleChunk]"
    by (simp add: signals_def fireTimer_def onAIMessageReceived_def clockAt_def setTimeout_def
      clearTimeout_def truthyTimer_def triggerAutoPilotInjection_def manualInject_def
      handleInterception_def sendNovelChunk_def callOriginalSendMessage_def
      formatChunkContent_def evalEngine
      exampleWorld_def oneParagraph_def defaultSettings_def sampleChunk_def appendedMarker_def
      evalString extractChapter_def firstChapterLine.simps chapterPatterns_def numeralsThen_def
      isChapterNumeral_def isDigit_def startsWithIgnoreCase_def toLowerAscii_def
      fallbackChapter_def numberToString_def)
  from C8_signal_rearms_single_timer[of disabledWorld "[]" 0 0] h3
  have b: "timers (onAIMessageReceived disabledWorld) = []" by (simp add: v)
  from h1 h2 h3 a b f show ?thesis by simp
qed

end
